theory Spec2Isabelle
  imports Complex_Main "HOL-Library.AList"
begin

text \<open>
  A model of the \<^verbatim>\<open>bids_duckdb\<close> package: the entity schema with its fallback, the
  extraction of entities from file names, the three loaders that build one relation from
  the tabular files of a dataset, and the benchmark loop. Exceptions are values of a sum
  type, objects with mutable fields are records passed through each call, and
  dictionaries whose order matters are association lists.
\<close>

section \<open>Entity extraction from file names (base.py)\<close>

subsection \<open>Path(filepath).name\<close>

text \<open>
  \<^verbatim>\<open>filename = Path(filepath).name\<close>: pathlib splits a POSIX path at the slashes, drops
  empty components and the component \<^verbatim>\<open>.\<close>, and the name is the last remaining
  component, or the empty string when none remains (\<^verbatim>\<open>Path("/").name == ""\<close>,
  \<^verbatim>\<open>Path("a/").name == "a"\<close>, \<^verbatim>\<open>Path("a/.").name == "a"\<close>).
\<close>

fun split_sep :: "char \<Rightarrow> string \<Rightarrow> string list" where
  "split_sep sep [] = [[]]"
| "split_sep sep (c # cs) =
     (if c = sep then [] # split_sep sep cs
      else (case split_sep sep cs of
              [] \<Rightarrow> [[c]]
            | p # ps \<Rightarrow> (c # p) # ps))"

definition path_parts :: "string \<Rightarrow> string list" where
  "path_parts p = filter (\<lambda>part. part \<noteq> [] \<and> part \<noteq> ''.'') (split_sep CHR ''/'' p)"

definition path_name :: "string \<Rightarrow> string" where
  "path_name p = (case rev (path_parts p) of [] \<Rightarrow> [] | n # _ \<Rightarrow> n)"

subsection \<open>The pattern \<^verbatim>\<open>([a-zA-Z0-9]+)-([a-zA-Z0-9]+)\<close>\<close>

definition is_alnum :: "char \<Rightarrow> bool" where
  "is_alnum c \<longleftrightarrow>
     c \<in> set ''abcdefghijklmnopqrstuvwxyz'' \<or>
     c \<in> set ''ABCDEFGHIJKLMNOPQRSTUVWXYZ'' \<or>
     c \<in> set ''0123456789''"

text \<open>
  The regular-expression engine matches \<^verbatim>\<open>[a-zA-Z0-9]+\<close> greedily and backtracks:
  \<open>alnum_plus s\<close> lists every way the group can match a prefix of \<open>s\<close>, as
  (matched text, rest), the longest first.
\<close>

fun alnum_plus :: "string \<Rightarrow> (string \<times> string) list" where
  "alnum_plus [] = []"
| "alnum_plus (c # cs) =
     (if is_alnum c
      then map (\<lambda>(p, r). (c # p, r)) (alnum_plus cs) @ [([c], cs)]
      else [])"

text \<open>
  One attempt of the whole pattern at the start of the text: the candidates of the
  first group are tried in order; after each the literal hyphen must follow, and then
  the second group takes its first (longest) candidate, after which the pattern ends.
  The result is (key, value, rest of the text after the match).
\<close>

fun first_match :: "(string \<times> string) list \<Rightarrow> (string \<times> string \<times> string) option" where
  "first_match [] = None"
| "first_match ((k, r1) # alts) =
     (case r1 of
        [] \<Rightarrow> first_match alts
      | d # r1' \<Rightarrow>
          if d = CHR ''-''
          then (case alnum_plus r1' of
                  [] \<Rightarrow> first_match alts
                | (v, r2) # _ \<Rightarrow> Some (k, v, r2))
          else first_match alts)"

definition match_at :: "string \<Rightarrow> (string \<times> string \<times> string) option" where
  "match_at s = first_match (alnum_plus s)"

lemma alnum_plus_rest_shorter:
  "(p, r) \<in> set (alnum_plus s) \<Longrightarrow> length r < length s"
proof (induction s arbitrary: p r)
  case Nil
  then show ?case by simp
next
  case (Cons c cs)
  then show ?case by (fastforce split: if_splits)
qed

lemma first_match_shorter:
  "first_match alts = Some (k, v, r2) \<Longrightarrow> \<forall>(p, r) \<in> set alts. length r < n
     \<Longrightarrow> length r2 < n"
proof (induction alts rule: first_match.induct)
  case 1
  then show ?case by simp
next
  case (2 k' r1 alts)
  show ?case
  proof (cases r1)
    case Nil
    with 2 show ?thesis by simp
  next
    case (Cons d r1')
    show ?thesis
    proof (cases "d = CHR ''-'' \<and> alnum_plus r1' \<noteq> []")
      case True
      then obtain v' r2' rest where ap: "alnum_plus r1' = (v', r2') # rest"
        by (cases "alnum_plus r1'") auto
      with True Cons 2(4) have "r2 = r2'" by simp
      moreover have "length r2' < length r1'"
        using ap alnum_plus_rest_shorter [of v' r2' r1'] by simp
      moreover have "length r1 < n" using 2(5) by simp
      ultimately show ?thesis using Cons by simp
    next
      case False
      with 2 Cons show ?thesis by (auto split: list.splits if_splits)
    qed
  qed
qed

lemma match_at_shorter:
  "match_at s = Some (k, v, r) \<Longrightarrow> length r < length s"
  unfolding match_at_def
  using first_match_shorter [of "alnum_plus s" k v r "length s"] alnum_plus_rest_shorter
  by blast

text \<open>
  \<^verbatim>\<open>re.finditer(pattern, filename)\<close>: the pattern is tried at the current position; on a
  match the pair of groups is produced and the search resumes where the match ended,
  otherwise it moves one character on.
\<close>

function finditer :: "string \<Rightarrow> (string \<times> string) list" where
  "finditer [] = []"
| "finditer (c # cs) =
     (case match_at (c # cs) of
        None \<Rightarrow> finditer cs
      | Some (k, v, rest) \<Rightarrow> (k, v) # finditer rest)"
  by pat_completeness auto
termination
  by (relation "measure length") (auto dest: match_at_shorter)

subsection \<open>parse_bids_entities\<close>

text \<open>
  Dictionaries whose order is observable (column lists are built from them) are
  association lists with distinct keys in insertion order; \<open>AList.update\<close> is Python's
  \<^verbatim>\<open>d[key] = value\<close>: an existing key keeps its position, a new key goes to the end.

  \<open>parse_loop\<close> is the \<^verbatim>\<open>for match in re.finditer(...)\<close> loop: a pair is stored only when
  \<^verbatim>\<open>key in self.entity_short_to_full\<close>.
\<close>

fun parse_loop ::
  "(string \<times> string) list \<Rightarrow> (string \<times> string) list \<Rightarrow> (string \<times> string) list
     \<Rightarrow> (string \<times> string) list" where
  "parse_loop short_to_full [] entities = entities"
| "parse_loop short_to_full ((key, val) # ms) entities =
     parse_loop short_to_full ms
       (if key \<in> set (map fst short_to_full) then AList.update key val entities
        else entities)"

definition parse_bids_entities ::
  "(string \<times> string) list \<Rightarrow> string \<Rightarrow> (string \<times> string) list" where
  "parse_bids_entities short_to_full filepath =
     parse_loop short_to_full (finditer (path_name filepath)) []"

subsection \<open>The extraction contract in the specification's words\<close>

text \<open>
  The specification describes extraction as a left-to-right scan for non-overlapping tokens
  "one or more alphanumerics, a hyphen, one or more alphanumerics". \<open>spec_scan\<close> is that
  scan, written with maximal alphanumeric runs: at the current position, if a maximal run
  is followed by a hyphen and a non-empty run, the token is emitted and the scan
  continues after it, otherwise the scan moves one character on. \<open>spec_extract\<close> keeps
  the pairs with a known key, a later pair overriding an earlier one.
\<close>

function spec_scan :: "string \<Rightarrow> (string \<times> string) list" where
  "spec_scan s =
     (if s = [] then []
      else if takeWhile is_alnum s \<noteq> [] \<and> dropWhile is_alnum s \<noteq> []
              \<and> hd (dropWhile is_alnum s) = CHR ''-''
              \<and> takeWhile is_alnum (tl (dropWhile is_alnum s)) \<noteq> []
           then (takeWhile is_alnum s, takeWhile is_alnum (tl (dropWhile is_alnum s)))
                  # spec_scan (dropWhile is_alnum (tl (dropWhile is_alnum s)))
           else spec_scan (tl s))"
  by pat_completeness auto
termination
proof (relation "measure length")
  show "wf (measure length)" by simp
next
  fix s :: string
  assume "s \<noteq> []" and
    "takeWhile is_alnum s \<noteq> [] \<and> dropWhile is_alnum s \<noteq> []
       \<and> hd (dropWhile is_alnum s) = CHR ''-''
       \<and> takeWhile is_alnum (tl (dropWhile is_alnum s)) \<noteq> []"
  then have "dropWhile is_alnum s \<noteq> []" by simp
  then have "length (tl (dropWhile is_alnum s)) < length (dropWhile is_alnum s)" by simp
  moreover have "length (dropWhile is_alnum (tl (dropWhile is_alnum s)))
                   \<le> length (tl (dropWhile is_alnum s))"
    by (rule length_dropWhile_le)
  moreover have "length (dropWhile is_alnum s) \<le> length s" by (rule length_dropWhile_le)
  ultimately show "(dropWhile is_alnum (tl (dropWhile is_alnum s)), s) \<in> measure length"
    by simp
next
  fix s :: string
  assume "s \<noteq> []"
  then show "(tl s, s) \<in> measure length" by simp
qed

declare spec_scan.simps [simp del]

definition spec_extract :: "string set \<Rightarrow> string \<Rightarrow> (string \<rightharpoonup> string)" where
  "spec_extract known filename =
     map_of (rev (filter (\<lambda>(key, val). key \<in> known) (spec_scan filename)))"

section \<open>The entity schema (schema.py)\<close>

text \<open>
  An entity definition is a dictionary of string fields (\<^verbatim>\<open>name\<close>, \<^verbatim>\<open>display_name\<close>,
  \<^verbatim>\<open>type\<close>, \<^verbatim>\<open>format\<close>); the loaded definitions map full entity names to definitions.
\<close>

type_synonym entity_def = "(string \<times> string) list"
type_synonym entities = "(string \<times> entity_def) list"

text \<open>Exceptions of the program and of its collaborators, as values.\<close>

datatype exn =
    RequestException string
  | YAMLError string
  | TypeError string
  | ValueError string
  | FileNotFoundError string
  | IOException string
  | BinderException string

text \<open>
  What the network delivers when \<^verbatim>\<open>load_entities\<close> asks for a URL: \<^verbatim>\<open>requests.get\<close> raises,
  \<^verbatim>\<open>raise_for_status\<close> raises, \<^verbatim>\<open>yaml.safe_load\<close> raises, or the document is parsed;
  a parsed document is a mapping of definitions, or \<^verbatim>\<open>None\<close> for an empty document.
\<close>

datatype fetch_outcome =
    ConnectionFailed
  | HTTPStatusError
  | YAMLParseError
  | Document "entities option"

type_synonym network = "string \<Rightarrow> fetch_outcome"

record BIDSSchema =
  schema_version :: string
  p_entities :: "entities option"
  p_entity_short_to_full :: "(string \<times> string) list option"

definition BIDSSchema_init :: "string \<Rightarrow> BIDSSchema" where
  "BIDSSchema_init version =
     \<lparr>schema_version = version, p_entities = None, p_entity_short_to_full = None\<rparr>"

definition base_url :: "BIDSSchema \<Rightarrow> string" where
  "base_url s =
     ''https://raw.githubusercontent.com/bids-standard/bids-specification/''
       @ schema_version s @ ''/src/schema/objects''"

definition get_fallback_entities :: entities where
  "get_fallback_entities =
     [(''subject'', [(''name'', ''sub''), (''display_name'', ''Subject''), (''type'', ''string'')]),
      (''session'', [(''name'', ''ses''), (''display_name'', ''Session''), (''type'', ''string'')]),
      (''task'', [(''name'', ''task''), (''display_name'', ''Task''), (''type'', ''string'')]),
      (''acquisition'',
         [(''name'', ''acq''), (''display_name'', ''Acquisition''), (''type'', ''string'')]),
      (''ceagent'',
         [(''name'', ''ce''), (''display_name'', ''Contrast Enhancing Agent''),
          (''type'', ''string'')]),
      (''reconstruction'',
         [(''name'', ''rec''), (''display_name'', ''Reconstruction''), (''type'', ''string'')]),
      (''direction'',
         [(''name'', ''dir''), (''display_name'', ''Phase Encoding Direction''),
          (''type'', ''string'')]),
      (''run'',
         [(''name'', ''run''), (''display_name'', ''Run''), (''type'', ''string''),
          (''format'', ''index'')]),
      (''echo'',
         [(''name'', ''echo''), (''display_name'', ''Echo''), (''type'', ''string''),
          (''format'', ''index'')]),
      (''space'', [(''name'', ''space''), (''display_name'', ''Space''), (''type'', ''string'')]),
      (''description'',
         [(''name'', ''desc''), (''display_name'', ''Description''), (''type'', ''string'')])]"

text \<open>
  The body of the \<^verbatim>\<open>try\<close> block of \<^verbatim>\<open>load_entities\<close>. The parsed document is stored in
  \<^verbatim>\<open>self._entities\<close> before \<^verbatim>\<open>len(self._entities)\<close> is evaluated for the log line, and
  \<^verbatim>\<open>len(None)\<close> raises \<^verbatim>\<open>TypeError\<close>. An exception leaves the assignments made so far.
\<close>

definition fetch_entities :: "BIDSSchema \<Rightarrow> network \<Rightarrow> (exn + entities) \<times> BIDSSchema" where
  "fetch_entities s net =
     (case net (base_url s @ ''/entities.yaml'') of
        ConnectionFailed \<Rightarrow> (Inl (RequestException ''requests.get''), s)
      | HTTPStatusError \<Rightarrow> (Inl (RequestException ''raise_for_status''), s)
      | YAMLParseError \<Rightarrow> (Inl (YAMLError ''yaml.safe_load''), s)
      | Document doc \<Rightarrow>
          (let s' = s\<lparr>p_entities := doc\<rparr>
           in case doc of
                None \<Rightarrow> (Inl (TypeError ''object of type NoneType has no len()''), s')
              | Some loaded \<Rightarrow> (Inr loaded, s')))"

text \<open>
  \<^verbatim>\<open>load_entities\<close>: the cached definitions when there are any; otherwise the fetch, and
  on any exception of the fetch the fallback definitions, which are returned and not
  stored.
\<close>

definition load_entities :: "BIDSSchema \<Rightarrow> network \<Rightarrow> (exn + entities) \<times> BIDSSchema" where
  "load_entities s net =
     (case p_entities s of
        Some cached \<Rightarrow> (Inr cached, s)
      | None \<Rightarrow>
          (case fetch_entities s net of
             (Inr loaded, s') \<Rightarrow> (Inr loaded, s')
           | (Inl e, s') \<Rightarrow> (Inr get_fallback_entities, s')))"

text \<open>
  The loop of \<^verbatim>\<open>get_entity_mapping\<close>: \<^verbatim>\<open>definition.get("name")\<close>, stored when truthy
  (present and not the empty string).
\<close>

fun mapping_loop :: "entities \<Rightarrow> (string \<times> string) list \<Rightarrow> (string \<times> string) list" where
  "mapping_loop [] acc = acc"
| "mapping_loop ((full_name, definition) # rest) acc =
     (case map_of definition ''name'' of
        None \<Rightarrow> mapping_loop rest acc
      | Some short_name \<Rightarrow>
          if short_name \<noteq> [] then mapping_loop rest (AList.update short_name full_name acc)
          else mapping_loop rest acc)"

definition get_entity_mapping ::
  "BIDSSchema \<Rightarrow> network \<Rightarrow> (exn + (string \<times> string) list) \<times> BIDSSchema" where
  "get_entity_mapping s net =
     (case p_entity_short_to_full s of
        Some cached \<Rightarrow> (Inr cached, s)
      | None \<Rightarrow>
          (case load_entities s net of
             (Inl e, s') \<Rightarrow> (Inl e, s')
           | (Inr loaded, s') \<Rightarrow>
               (let m = mapping_loop loaded []
                in (Inr m, s'\<lparr>p_entity_short_to_full := Some m\<rparr>))))"

text \<open>
  \<^verbatim>\<open>str.title()\<close> on ASCII text: a letter that follows a letter is lower-cased, any other
  letter is upper-cased, and other characters are kept.
\<close>

definition is_lower :: "char \<Rightarrow> bool" where
  "is_lower c \<longleftrightarrow> c \<in> set ''abcdefghijklmnopqrstuvwxyz''"

definition is_upper :: "char \<Rightarrow> bool" where
  "is_upper c \<longleftrightarrow> c \<in> set ''ABCDEFGHIJKLMNOPQRSTUVWXYZ''"

definition to_upper :: "char \<Rightarrow> char" where
  "to_upper c = (if is_lower c then char_of (of_char c - (32::nat)) else c)"

definition to_lower :: "char \<Rightarrow> char" where
  "to_lower c = (if is_upper c then char_of (of_char c + (32::nat)) else c)"

fun title_from :: "bool \<Rightarrow> string \<Rightarrow> string" where
  "title_from after_letter [] = []"
| "title_from after_letter (c # cs) =
     (if is_lower c \<or> is_upper c
      then (if after_letter then to_lower c else to_upper c) # title_from True cs
      else c # title_from False cs)"

definition title :: "string \<Rightarrow> string" where
  "title s = title_from False s"

text \<open>
  The loop of \<^verbatim>\<open>get_entity_display_names\<close>, over \<^verbatim>\<open>entities.values()\<close>. The result is
  built afresh from \<^verbatim>\<open>load_entities\<close> at every call; the method stores nothing.
\<close>

fun display_loop :: "entities \<Rightarrow> (string \<times> string) list \<Rightarrow> (string \<times> string) list" where
  "display_loop [] acc = acc"
| "display_loop ((full_name, definition) # rest) acc =
     (let short_name = map_of definition ''name'';
          display_name =
            (case map_of definition ''display_name'' of
               Some d \<Rightarrow> d
             | None \<Rightarrow> title (case short_name of Some n \<Rightarrow> n | None \<Rightarrow> []))
      in case short_name of
           None \<Rightarrow> display_loop rest acc
         | Some n \<Rightarrow>
             if n \<noteq> [] then display_loop rest (AList.update n display_name acc)
             else display_loop rest acc)"

definition get_entity_display_names ::
  "BIDSSchema \<Rightarrow> network \<Rightarrow> (exn + (string \<times> string) list) \<times> BIDSSchema" where
  "get_entity_display_names s net =
     (case load_entities s net of
        (Inl e, s') \<Rightarrow> (Inl e, s')
      | (Inr loaded, s') \<Rightarrow> (Inr (display_loop loaded []), s'))"

definition get_all_entity_short_names ::
  "BIDSSchema \<Rightarrow> network \<Rightarrow> (exn + string list) \<times> BIDSSchema" where
  "get_all_entity_short_names s net =
     (case get_entity_mapping s net of
        (Inl e, s') \<Rightarrow> (Inl e, s')
      | (Inr m, s') \<Rightarrow> (Inr (map fst m), s'))"

text \<open>
  \<^verbatim>\<open>get_default_schema\<close> is wrapped in \<^verbatim>\<open>lru_cache(maxsize=1)\<close>: the process holds at most
  one default schema object. The state is that object, if it has been made; the call
  returns the object and the new state. Methods called on the returned object later
  change the very object the cache holds.
\<close>

definition get_default_schema ::
  "BIDSSchema option \<Rightarrow> network \<Rightarrow> BIDSSchema \<times> BIDSSchema option" where
  "get_default_schema cache net =
     (case cache of
        Some schema \<Rightarrow> (schema, cache)
      | None \<Rightarrow>
          (let schema = snd (load_entities (BIDSSchema_init ''master'') net)
           in (schema, Some schema)))"

text \<open>
  The fetch fails when any step inside the \<^verbatim>\<open>try\<close> block raises: the request, the status
  check, the parser, or \<^verbatim>\<open>len\<close> of an empty document.
\<close>

definition fetch_fails :: "fetch_outcome \<Rightarrow> bool" where
  "fetch_fails outcome \<longleftrightarrow>
     (case outcome of Document (Some loaded) \<Rightarrow> False | _ \<Rightarrow> True)"

definition entities_url :: "BIDSSchema \<Rightarrow> string" where
  "entities_url s = base_url s @ ''/entities.yaml''"

text \<open>Two concrete networks: one that is unreachable, one that serves a small document.\<close>

definition net_down :: network where
  "net_down url = ConnectionFailed"

definition small_document :: entities where
  "small_document = [(''subject'', [(''name'', ''sub'')]), (''session'', [(''name'', ''ses'')])]"

definition net_up :: network where
  "net_up url = Document (Some small_document)"

definition net_404 :: network where
  "net_404 url = HTTPStatusError"

section \<open>The query engine and the file system as the loaders use them\<close>

text \<open>
  The engine is an external collaborator. Its model here covers what the statements built
  by the loaders need: tables of nullable text cells, reading one tabular file, reading
  the files of a glob, positional \<^verbatim>\<open>UNION ALL\<close>, \<^verbatim>\<open>regexp_extract\<close>, a catalog with
  create-or-replace, and a registry of named functions.
\<close>

type_synonym cell = "string option"

record table =
  cols :: "string list"
  rows :: "cell list list"

record tsv_file =
  path :: string
  content :: "table option"

record json_file =
  jpath :: string
  json_text :: "string option"

text \<open>
  \<open>path\<close> is \<^verbatim>\<open>str(tsv_path)\<close>; \<open>content\<close> is what \<^verbatim>\<open>read_csv\<close> with automatic detection
  finds in the file, or \<open>None\<close> when the read raises. \<open>json_text\<close> is
  \<^verbatim>\<open>json.dumps(json.load(f))\<close>, or \<open>None\<close> when opening or parsing raises. The file system
  gives, for a glob pattern, the files under the root that match it, in the order the
  glob yields them; \<^verbatim>\<open>Path.glob(pattern)\<close> and the engine's glob of
  \<^verbatim>\<open>str(bids_root / pattern)\<close> are taken to match the same files.
\<close>

record filesystem =
  tsv_glob :: "string \<Rightarrow> tsv_file list"
  json_glob :: "string \<Rightarrow> json_file list"

datatype table_function = ScanTsv bool | ScanJson bool

datatype relation = Table table | View string string

record engine =
  catalog :: "string \<rightharpoonup> relation"
  registered :: "string \<rightharpoonup> table_function"

definition create_or_replace :: "engine \<Rightarrow> string \<Rightarrow> relation \<Rightarrow> engine" where
  "create_or_replace con name rel = con\<lparr>catalog := (catalog con)(name \<mapsto> rel)\<rparr>"

definition read_csv :: "tsv_file \<Rightarrow> exn + table" where
  "read_csv f =
     (case content f of
        None \<Rightarrow> Inl (IOException (''Could not read file '' @ path f))
      | Some t \<Rightarrow> Inr t)"

fun read_csv_each :: "tsv_file list \<Rightarrow> exn + (tsv_file \<times> table) list" where
  "read_csv_each [] = Inr []"
| "read_csv_each (f # fs) =
     (case read_csv f of
        Inl e \<Rightarrow> Inl e
      | Inr t \<Rightarrow> (case read_csv_each fs of Inl e \<Rightarrow> Inl e | Inr ts \<Rightarrow> Inr ((f, t) # ts)))"

text \<open>
  \<^verbatim>\<open>UNION ALL\<close> combines its operands by position: the operands must have the same
  number of columns, the names are those of the first operand, and the rows are
  concatenated.
\<close>

fun union_all :: "table list \<Rightarrow> exn + table" where
  "union_all [] = Inl (BinderException ''empty set operation'')"
| "union_all [t] = Inr t"
| "union_all (t # ts) =
     (case union_all ts of
        Inl e \<Rightarrow> Inl e
      | Inr u \<Rightarrow>
          if length (cols t) = length (cols u)
          then Inr \<lparr>cols = cols t, rows = rows t @ rows u\<rparr>
          else Inl (BinderException
                 ''Set operations can only apply to expressions with the same number of result columns''))"






section \<open>The loaders (base.py, approach1_sql.py, approach2_python.py, approach3_table_function.py)\<close>

text \<open>
  A constructed loader holds its root and the entity mapping that \<^verbatim>\<open>__init__\<close> obtained
  from the schema. \<^verbatim>\<open>self.schema.get_all_entity_short_names()\<close> is the key list of that
  same mapping, because \<^verbatim>\<open>get_entity_mapping\<close> cached it during construction.
\<close>

record BIDSLoader =
  bids_root :: string
  entity_short_to_full :: "(string \<times> string) list"

definition get_entity_full_name :: "BIDSLoader \<Rightarrow> string \<Rightarrow> string" where
  "get_entity_full_name L short_name =
     (case map_of (entity_short_to_full L) short_name of
        Some full_name \<Rightarrow> full_name
      | None \<Rightarrow> short_name)"



text \<open>A dictionary built from key-value pairs in order, and \<^verbatim>\<open>dict.update\<close>.\<close>

definition dict_update :: "('k \<times> 'v) list \<Rightarrow> ('k \<times> 'v) list \<Rightarrow> ('k \<times> 'v) list" where
  "dict_update d kvs = fold (\<lambda>kv acc. AList.update (fst kv) (snd kv) acc) kvs d"

definition dict_of :: "('k \<times> 'v) list \<Rightarrow> ('k \<times> 'v) list" where
  "dict_of kvs = dict_update [] kvs"

text \<open>
  The entities of one file as the host-side variants compute them:
  \<^verbatim>\<open>parse_bids_entities\<close>, then the keys renamed to full names if requested.
\<close>

definition file_entities :: "BIDSLoader \<Rightarrow> bool \<Rightarrow> string \<Rightarrow> (string \<times> string) list" where
  "file_entities L use_full_names filepath =
     (let entities = parse_bids_entities (entity_short_to_full L) filepath
      in if use_full_names
         then dict_of (map (\<lambda>kv. (get_entity_full_name L (fst kv), snd kv)) entities)
         else entities)"

subsection \<open>Engine-native variant: SQLRegexLoader.load_tsv_files\<close>



subsection \<open>Host-eager variant: PythonPreprocessLoader.load_tsv_files\<close>

text \<open>
  \<open>file_info\<close> is the dictionary \<^verbatim>\<open>{"filepath": ..., "filename": ..., **entities}\<close>;
  the entity columns of the per-file statement are its items other than \<open>filepath\<close> and
  \<open>filename\<close>, as quoted literals. Both keys are always present, so \<open>dict_get\<close> never
  meets a missing key on them. Paths are taken to contain no single quote, so that the
  quoted literals are the strings themselves.
\<close>

definition file_info :: "BIDSLoader \<Rightarrow> bool \<Rightarrow> tsv_file \<Rightarrow> (string \<times> string) list" where
  "file_info L use_full_names f =
     dict_of ([(''filepath'', path f), (''filename'', path_name (path f))]
              @ file_entities L use_full_names (path f))"

definition dict_get :: "(string \<times> string) list \<Rightarrow> string \<Rightarrow> string" where
  "dict_get d key = (case map_of d key of Some v \<Rightarrow> v | None \<Rightarrow> [])"

text \<open>
  One operand of the union:
  \<^verbatim>\<open>SELECT 'path' AS filepath, 'name' AS filename, 'v' AS key, ..., * FROM read_csv('path')\<close>.
\<close>

definition python_select :: "(string \<times> string) list \<Rightarrow> table \<Rightarrow> table" where
  "python_select info t =
     (let entity_cols = filter (\<lambda>kv. fst kv \<noteq> ''filepath'' \<and> fst kv \<noteq> ''filename'') info
      in \<lparr>cols = [''filepath'', ''filename''] @ map fst entity_cols @ cols t,
          rows = map (\<lambda>row. [Some (dict_get info ''filepath''), Some (dict_get info ''filename'')]
                               @ map (\<lambda>kv. Some (snd kv)) entity_cols @ row)
                   (rows t)\<rparr>)"

definition python_load_tsv_files ::
  "BIDSLoader \<Rightarrow> engine \<Rightarrow> filesystem \<Rightarrow> string \<Rightarrow> bool \<Rightarrow> (exn + string) \<times> engine" where
  "python_load_tsv_files L con fs pattern use_full_names =
     (let tsv_files = tsv_glob fs pattern
      in if tsv_files = []
         then (Inr ''bids_tsv_data'',
               create_or_replace con ''bids_tsv_data'' (Table \<lparr>cols = [''filepath''], rows = []\<rparr>))
         else (case read_csv_each tsv_files of
                 Inl e \<Rightarrow> (Inl e, con)
               | Inr fts \<Rightarrow>
                   (case union_all
                           (map (\<lambda>ft. python_select (file_info L use_full_names (fst ft)) (snd ft))
                              fts) of
                      Inl e \<Rightarrow> (Inl e, con)
                    | Inr t \<Rightarrow>
                        (Inr ''bids_tsv_data'',
                         create_or_replace con ''bids_tsv_data'' (Table t)))))"

subsection \<open>Host-lazy variant: TableFunctionLoader\<close>













section \<open>Observations and concrete datasets\<close>






definition created_table :: "(exn + string) \<times> engine \<Rightarrow> table option" where
  "created_table result =
     (case result of
        (Inr name, con) \<Rightarrow> (case catalog con name of Some (Table t) \<Rightarrow> Some t | _ \<Rightarrow> None)
      | (Inl e, con) \<Rightarrow> None)"

text \<open>
  The loader over the fallback schema, an engine with nothing in it, and the dataset of
  the repository's test fixture: two subjects, the second with a session, one task.
\<close>

definition fallback_loader :: BIDSLoader where
  "fallback_loader =
     \<lparr>bids_root = ''/data/bids'',
      entity_short_to_full = mapping_loop get_fallback_entities []\<rparr>"

definition empty_engine :: engine where
  "empty_engine = \<lparr>catalog = Map.empty, registered = Map.empty\<rparr>"




definition no_json :: "string \<Rightarrow> json_file list" where
  "no_json pattern = []"






text \<open>Two files with the same entities and different native columns.\<close>

definition beh_sub01 :: tsv_file where
  "beh_sub01 =
     \<lparr>path = ''/data/bids/sub-01/beh/sub-01_task-rest_beh.tsv'',
      content = Some \<lparr>cols = [''onset''], rows = [[Some ''1.0'']]\<rparr>\<rparr>"

definition beh_sub02_wide :: tsv_file where
  "beh_sub02_wide =
     \<lparr>path = ''/data/bids/sub-02/beh/sub-02_task-rest_beh.tsv'',
      content = Some \<lparr>cols = [''onset'', ''response''], rows = [[Some ''2.0'', Some ''left'']]\<rparr>\<rparr>"

definition beh_sub02_other :: tsv_file where
  "beh_sub02_other =
     \<lparr>path = ''/data/bids/sub-02/beh/sub-02_task-rest_beh.tsv'',
      content = Some \<lparr>cols = [''response''], rows = [[Some ''left'']]\<rparr>\<rparr>"

definition wide_tsv :: "string \<Rightarrow> tsv_file list" where
  "wide_tsv pattern = [beh_sub01, beh_sub02_wide]"

definition wide_fs :: filesystem where
  "wide_fs = \<lparr>tsv_glob = wide_tsv, json_glob = no_json\<rparr>"

definition other_tsv :: "string \<Rightarrow> tsv_file list" where
  "other_tsv pattern = [beh_sub01, beh_sub02_other]"

definition other_fs :: filesystem where
  "other_fs = \<lparr>tsv_glob = other_tsv, json_glob = no_json\<rparr>"

definition no_tsv :: "string \<Rightarrow> tsv_file list" where
  "no_tsv pattern = []"

definition empty_fs :: filesystem where
  "empty_fs = \<lparr>tsv_glob = no_tsv, json_glob = no_json\<rparr>"



section \<open>The benchmark suite (benchmark.py)\<close>

record BenchmarkResult =
  approach_name :: string
  load_time :: real
  query_times :: "(string \<times> real) list"
  row_counts :: "(string \<times> nat) list"
  memory_usage :: nat
  errors :: "string list"

text \<open>
  The dataclass constructor: \<^verbatim>\<open>approach_name\<close> and \<^verbatim>\<open>load_time\<close> have no default, the other
  fields default to empty; a call without \<^verbatim>\<open>load_time\<close> raises \<^verbatim>\<open>TypeError\<close>.
\<close>

definition BenchmarkResult_init :: "string \<Rightarrow> real option \<Rightarrow> string list \<Rightarrow> exn + BenchmarkResult" where
  "BenchmarkResult_init name time errs =
     (case time of
        None \<Rightarrow>
          Inl (TypeError
                 ''BenchmarkResult.__init__() missing 1 required positional argument: load_time'')
      | Some t \<Rightarrow>
          Inr \<lparr>approach_name = name, load_time = t, query_times = [], row_counts = [],
               memory_usage = 0, errors = errs\<rparr>)"

datatype loader_class = SQLRegexLoader | PythonPreprocessLoader | TableFunctionLoaderClass

text \<open>
  \<^verbatim>\<open>_create_loader\<close>: the dictionary lookup of the approach name, \<^verbatim>\<open>ValueError\<close> for a
  name that is not a key, and then the loader's constructor, which raises
  \<^verbatim>\<open>FileNotFoundError\<close> when the root does not exist.
\<close>

definition loaders :: "(string \<times> loader_class) list" where
  "loaders =
     [(''sql'', SQLRegexLoader), (''python'', PythonPreprocessLoader),
      (''table_function'', TableFunctionLoaderClass)]"

definition create_loader :: "string \<Rightarrow> bool \<Rightarrow> string \<Rightarrow> exn + loader_class" where
  "create_loader root_dir root_exists approach =
     (case map_of loaders approach of
        None \<Rightarrow> Inl (ValueError (''Unknown approach: '' @ approach))
      | Some loader_class \<Rightarrow>
          if root_exists then Inr loader_class
          else Inl (FileNotFoundError (''BIDS root does not exist: '' @ root_dir)))"

text \<open>
  \<^verbatim>\<open>_benchmark_approach\<close> first builds its result with
  \<^verbatim>\<open>BenchmarkResult(approach_name=approach)\<close>, then creates the loader, and then times the
  load and the queries. Every later step catches its own exceptions and records them in
  the result; it depends on the engine and the clock and is the parameter \<open>measure_loader\<close>.
\<close>

definition benchmark_approach ::
  "(loader_class \<Rightarrow> BenchmarkResult \<Rightarrow> BenchmarkResult) \<Rightarrow> string \<Rightarrow> bool \<Rightarrow> string
     \<Rightarrow> exn + BenchmarkResult" where
  "benchmark_approach measure_loader root_dir root_exists approach =
     (case BenchmarkResult_init approach None [] of
        Inl e \<Rightarrow> Inl e
      | Inr result \<Rightarrow>
          (case create_loader root_dir root_exists approach of
             Inl e \<Rightarrow> Inl e
           | Inr loader_class \<Rightarrow> Inr (measure_loader loader_class result)))"

fun str_of_exn :: "exn \<Rightarrow> string" where
  "str_of_exn (RequestException m) = m"
| "str_of_exn (YAMLError m) = m"
| "str_of_exn (TypeError m) = m"
| "str_of_exn (ValueError m) = m"
| "str_of_exn (FileNotFoundError m) = m"
| "str_of_exn (IOException m) = m"
| "str_of_exn (BinderException m) = m"

text \<open>
  The loop of \<^verbatim>\<open>run_all\<close>: an exception of \<^verbatim>\<open>_benchmark_approach\<close> is caught and becomes
  a result with \<^verbatim>\<open>load_time=0\<close> and the message as its only error. The handler's own
  constructor call has all required arguments; were it to raise, the exception would
  leave \<^verbatim>\<open>run_all\<close>.
\<close>

fun run_loop ::
  "(loader_class \<Rightarrow> BenchmarkResult \<Rightarrow> BenchmarkResult) \<Rightarrow> string \<Rightarrow> bool \<Rightarrow> string list
     \<Rightarrow> BenchmarkResult list \<Rightarrow> exn + BenchmarkResult list" where
  "run_loop measure_loader root_dir root_exists [] results = Inr results"
| "run_loop measure_loader root_dir root_exists (approach # rest) results =
     (case benchmark_approach measure_loader root_dir root_exists approach of
        Inr result \<Rightarrow> run_loop measure_loader root_dir root_exists rest (results @ [result])
      | Inl e \<Rightarrow>
          (case BenchmarkResult_init approach (Some 0) [str_of_exn e] of
             Inl e' \<Rightarrow> Inl e'
           | Inr failed \<Rightarrow> run_loop measure_loader root_dir root_exists rest (results @ [failed])))"

definition run_all ::
  "(loader_class \<Rightarrow> BenchmarkResult \<Rightarrow> BenchmarkResult) \<Rightarrow> string \<Rightarrow> bool \<Rightarrow> string list option
     \<Rightarrow> exn + BenchmarkResult list" where
  "run_all measure_loader root_dir root_exists approaches =
     run_loop measure_loader root_dir root_exists
       (case approaches of None \<Rightarrow> [''sql'', ''python'', ''table_function''] | Some names \<Rightarrow> names)
       []"

definition no_measurement :: "loader_class \<Rightarrow> BenchmarkResult \<Rightarrow> BenchmarkResult" where
  "no_measurement loader_class result = result"

section \<open>Properties of the pattern matcher, the extraction loop and path names\<close>

text \<open>
  The hyphen is not alphanumeric, so among the candidates of the first group only the
  longest can be followed by the hyphen: backtracking never finds a match that the
  maximal run misses. This makes the engine's search equal to the token scan.
\<close>

lemma hyphen_not_alnum: "\<not> is_alnum CHR ''-''"
  by (simp add: is_alnum_def)

lemma alnum_plus_Nil_iff: "alnum_plus s = [] \<longleftrightarrow> takeWhile is_alnum s = []"
  by (cases s) auto

lemma alnum_plus_hd:
  "alnum_plus s \<noteq> [] \<Longrightarrow> hd (alnum_plus s) = (takeWhile is_alnum s, dropWhile is_alnum s)"
proof (induction s)
  case Nil
  then show ?case by simp
next
  case (Cons c cs)
  then have c: "is_alnum c" by (auto split: if_splits)
  show ?case
  proof (cases "alnum_plus cs = []")
    case True
    then have "takeWhile is_alnum cs = []" by (simp add: alnum_plus_Nil_iff)
    then have "dropWhile is_alnum cs = cs"
      by (metis takeWhile_dropWhile_id append_Nil)
    with c True \<open>takeWhile is_alnum cs = []\<close> show ?thesis by simp
  next
    case False
    with Cons.IH have "hd (alnum_plus cs) = (takeWhile is_alnum cs, dropWhile is_alnum cs)"
      by simp
    with c False show ?thesis by (simp add: hd_append hd_map)
  qed
qed

lemma alnum_plus_tl:
  "(p, r) \<in> set (tl (alnum_plus s)) \<Longrightarrow> r \<noteq> [] \<and> is_alnum (hd r)"
proof (induction s arbitrary: p r)
  case Nil
  then show ?case by simp
next
  case (Cons c cs)
  then have c: "is_alnum c" by (auto split: if_splits)
  show ?case
  proof (cases "alnum_plus cs = []")
    case True
    with c Cons.prems show ?thesis by simp
  next
    case False
    then have cs: "cs \<noteq> [] \<and> is_alnum (hd cs)" by (cases cs) (auto split: if_splits)
    from c False Cons.prems
    have "(p, r) \<in> set (map (\<lambda>(p, r). (c # p, r)) (tl (alnum_plus cs))) \<or> (p, r) = ([c], cs)"
      by (auto simp: map_tl)
    then show ?thesis
    proof
      assume "(p, r) \<in> set (map (\<lambda>(p, r). (c # p, r)) (tl (alnum_plus cs)))"
      then obtain p' where "(p', r) \<in> set (tl (alnum_plus cs))" by auto
      then show ?thesis by (rule Cons.IH)
    next
      assume "(p, r) = ([c], cs)"
      with cs show ?thesis by simp
    qed
  qed
qed

lemma first_match_skip:
  "\<forall>(p, r) \<in> set alts. r \<noteq> [] \<and> is_alnum (hd r) \<Longrightarrow> first_match alts = None"
proof (induction alts rule: first_match.induct)
  case 1
  then show ?case by simp
next
  case (2 k r1 alts)
  then have r1: "r1 \<noteq> [] \<and> is_alnum (hd r1)" by simp
  then obtain d r1' where d: "r1 = d # r1'" "is_alnum d" by (cases r1) auto
  then have "d \<noteq> CHR ''-''" using hyphen_not_alnum by auto
  with 2 d show ?case by simp
qed

lemma match_at_eq:
  "match_at s =
     (if takeWhile is_alnum s \<noteq> [] \<and> dropWhile is_alnum s \<noteq> []
         \<and> hd (dropWhile is_alnum s) = CHR ''-''
         \<and> takeWhile is_alnum (tl (dropWhile is_alnum s)) \<noteq> []
      then Some (takeWhile is_alnum s, takeWhile is_alnum (tl (dropWhile is_alnum s)),
                 dropWhile is_alnum (tl (dropWhile is_alnum s)))
      else None)"
proof (cases "alnum_plus s")
  case Nil
  then have "takeWhile is_alnum s = []" by (simp add: alnum_plus_Nil_iff)
  with Nil show ?thesis by (simp add: match_at_def)
next
  case (Cons a alts)
  then have ne: "alnum_plus s \<noteq> []" by simp
  then have tw: "takeWhile is_alnum s \<noteq> []" by (simp add: alnum_plus_Nil_iff)
  from alnum_plus_hd [OF ne] Cons
  have a: "a = (takeWhile is_alnum s, dropWhile is_alnum s)" by simp
  have "\<forall>(p, r) \<in> set alts. r \<noteq> [] \<and> is_alnum (hd r)"
    using alnum_plus_tl [of _ _ s] Cons by auto
  then have skip: "first_match alts = None" by (rule first_match_skip)
  show ?thesis
  proof (cases "dropWhile is_alnum s")
    case Nil
    with Cons a skip show ?thesis by (simp add: match_at_def)
  next
    case dw: (Cons d r1')
    show ?thesis
    proof (cases "alnum_plus r1'")
      case Nil
      then have "takeWhile is_alnum r1' = []" by (simp add: alnum_plus_Nil_iff)
      with Nil Cons a skip dw show ?thesis
        by (simp add: match_at_def)
    next
      case c2: (Cons b rest)
      then have ne2: "alnum_plus r1' \<noteq> []" by simp
      from alnum_plus_hd [OF ne2] c2
      have b: "b = (takeWhile is_alnum r1', dropWhile is_alnum r1')" by simp
      from ne2 have "takeWhile is_alnum r1' \<noteq> []" by (simp add: alnum_plus_Nil_iff)
      with Cons a skip dw c2 b tw show ?thesis
        by (simp add: match_at_def)
    qed
  qed
qed

lemma spec_scan_Cons:
  "spec_scan (c # cs) =
     (case match_at (c # cs) of
        None \<Rightarrow> spec_scan cs
      | Some (k, v, rest) \<Rightarrow> (k, v) # spec_scan rest)"
  by (subst spec_scan.simps) (simp add: match_at_eq)

lemma finditer_spec_scan: "finditer s = spec_scan s"
proof (induction s rule: finditer.induct)
  case 1
  then show ?case by (subst spec_scan.simps) simp
next
  case (2 c cs)
  then show ?case
    by (simp only: finditer.simps spec_scan_Cons split: option.splits prod.splits) simp
qed

text \<open>
  The loop stores exactly the pairs with a known key, a later pair overriding an earlier
  one, and never introduces a key outside the mapping.
\<close>

lemma parse_loop_map_of:
  "map_of (parse_loop m ms e) =
     map_of e ++ map_of (rev (filter (\<lambda>(key, val). key \<in> fst ` set m) ms))"
proof (induction ms arbitrary: e)
  case Nil
  then show ?case by simp
next
  case (Cons a ms)
  obtain k v where a: "a = (k, v)" by (cases a)
  show ?case
  proof (cases "k \<in> fst ` set m")
    case True
    have "map_of (parse_loop m (a # ms) e) = map_of (parse_loop m ms (AList.update k v e))"
      using a True by simp
    also have "\<dots> = map_of (AList.update k v e)
                      ++ map_of (rev (filter (\<lambda>(key, val). key \<in> fst ` set m) ms))"
      by (rule Cons.IH)
    also have "\<dots> = map_of e
                      ++ map_of (rev (filter (\<lambda>(key, val). key \<in> fst ` set m) (a # ms)))"
      using a True by (simp add: update_conv' map_add_upd_left)
    finally show ?thesis .
  next
    case False
    with a Cons.IH [of e] show ?thesis by simp
  qed
qed

lemma parse_loop_keys:
  "fst ` set (parse_loop m ms e) \<subseteq> fst ` set e \<union> fst ` set m"
proof (induction ms arbitrary: e)
  case Nil
  then show ?case by simp
next
  case (Cons a ms)
  obtain k v where a: "a = (k, v)" by (cases a)
  show ?case
  proof (cases "k \<in> fst ` set m")
    case True
    have "fst ` set (AList.update k v e) = insert k (fst ` set e)"
      by (simp add: dom_update)
    with Cons.IH [of "AList.update k v e"] a True show ?thesis by auto
  next
    case False
    with a Cons.IH [of e] show ?thesis by simp
  qed
qed

text \<open>The name of a path is a single component, and taking the name again changes nothing.\<close>

lemma split_sep_not_Nil: "split_sep sep s \<noteq> []"
  by (induction s) (auto split: list.splits)

lemma split_sep_append:
  "split_sep sep (a @ sep # b) = split_sep sep a @ split_sep sep b"
proof (induction a)
  case Nil
  then show ?case by simp
next
  case (Cons c a)
  then show ?case using split_sep_not_Nil [of sep a]
    by (cases "split_sep sep a") auto
qed

lemma split_sep_no_sep: "sep \<notin> set s \<Longrightarrow> split_sep sep s = [s]"
  by (induction s) auto

lemma split_sep_parts: "p \<in> set (split_sep sep s) \<Longrightarrow> sep \<notin> set p"
proof (induction s arbitrary: p)
  case Nil
  then show ?case by simp
next
  case (Cons c s)
  then show ?case by (cases "split_sep sep s") (auto split: if_splits)
qed

lemma path_name_join:
  assumes "name \<noteq> []" and "name \<noteq> ''.''" and "CHR ''/'' \<notin> set name"
  shows "path_name (dir @ ''/'' @ name) = name"
  using assms by (simp add: path_name_def path_parts_def split_sep_append split_sep_no_sep)

lemma path_name_cases:
  "path_name p = [] \<or> (path_name p \<noteq> ''.'' \<and> CHR ''/'' \<notin> set (path_name p))"
proof (cases "rev (path_parts p)")
  case Nil
  then show ?thesis by (simp add: path_name_def)
next
  case (Cons n ns)
  then have "n \<in> set (path_parts p)" by (metis list.set_intros(1) set_rev)
  then have "n \<noteq> ''.'' \<and> n \<in> set (split_sep CHR ''/'' p)" by (simp add: path_parts_def)
  with Cons show ?thesis by (auto simp: path_name_def dest: split_sep_parts)
qed

lemma path_name_idem: "path_name (path_name p) = path_name p"
proof (cases "path_name p = []")
  case True
  then show ?thesis by (simp add: path_name_def path_parts_def)
next
  case False
  with path_name_cases [of p] have "path_name p \<noteq> ''.''" "CHR ''/'' \<notin> set (path_name p)"
    by auto
  with False show ?thesis
    by (simp add: path_name_def [of "path_name p"] path_parts_def split_sep_no_sep)
qed

lemma path_name_no_slash:
  "CHR ''/'' \<notin> set f \<Longrightarrow> path_name f = (if f = ''.'' then [] else f)"
  by (simp add: path_name_def path_parts_def split_sep_no_sep)

lemma spec_scan_file_name:
  assumes "CHR ''/'' \<notin> set f"
  shows "spec_scan (path_name f) = spec_scan f"
proof (cases "f = ''.''")
  case True
  have "finditer ''.'' = finditer []"
    by (simp add: match_at_def is_alnum_def)
  with True assms show ?thesis
    by (simp add: path_name_no_slash flip: finditer_spec_scan)
next
  case False
  with assms show ?thesis by (simp add: path_name_no_slash)
qed

text \<open>The extraction examples of the specification and of the repository's tests.\<close>

lemma parse_bids_entities_example_full:
  "parse_bids_entities
     [(''sub'', ''subject''), (''ses'', ''session''), (''task'', ''task''), (''run'', ''run'')]
     ''sub-02_ses-pre_task-rest_run-01_events.tsv''
   = [(''sub'', ''02''), (''ses'', ''pre''), (''task'', ''rest''), (''run'', ''01'')]"
  by code_simp

lemma parse_bids_entities_example_unknown_key:
  "parse_bids_entities [(''sub'', ''subject'')] ''foo-01_sub-02.tsv'' = [(''sub'', ''02'')]"
  by code_simp

lemma parse_bids_entities_example_repeated_key:
  "parse_bids_entities [(''sub'', ''subject''), (''run'', ''run'')] ''sub-01_run-1_sub-02.tsv''
   = [(''sub'', ''02''), (''run'', ''1'')]"
  by code_simp

section \<open>Properties of the schema\<close>

lemma fetch_entities_fails:
  "fetch_fails (net (entities_url s)) \<Longrightarrow> p_entities s = None \<Longrightarrow>
     \<exists>e. fetch_entities s net = (Inl e, s)"
  by (cases s) (auto simp: fetch_fails_def fetch_entities_def entities_url_def
      split: fetch_outcome.splits option.splits)

lemma load_entities_returns: "\<exists>loaded s'. load_entities s net = (Inr loaded, s')"
  by (auto simp: load_entities_def split: option.splits prod.splits sum.splits)

lemma load_entities_cached:
  "p_entities s = Some cached \<Longrightarrow> load_entities s net = (Inr cached, s)"
  by (simp add: load_entities_def)

lemma fallback_mapping:
  "mapping_loop get_fallback_entities [] =
     [(''sub'', ''subject''), (''ses'', ''session''), (''task'', ''task''),
      (''acq'', ''acquisition''), (''ce'', ''ceagent''), (''rec'', ''reconstruction''),
      (''dir'', ''direction''), (''run'', ''run''), (''echo'', ''echo''),
      (''space'', ''space''), (''desc'', ''description'')]"
  by (simp add: get_fallback_entities_def)

section \<open>Evaluating the loaders\<close>

text \<open>
  After \<^verbatim>\<open>__init__\<close> has called \<open>get_entity_mapping\<close>, the schema's short names are the
  keys of the mapping the loader holds, whatever the network does later.
\<close>

lemma short_names_after_init:
  "get_entity_mapping s net = (Inr m, s1) \<Longrightarrow>
     get_all_entity_short_names s1 net' = (Inr (map fst m), s1)"
  using load_entities_returns [of s net]
  by (auto simp: get_all_entity_short_names_def get_entity_mapping_def Let_def
      split: option.splits prod.splits sum.splits)







lemma wide_host_eager_fails:
  "fst (python_load_tsv_files fallback_loader empty_engine wide_fs ''**/*.tsv'' True)
     = Inl (BinderException
         ''Set operations can only apply to expressions with the same number of result columns'')"
  by code_simp

lemma other_host_eager_table:
  "created_table (python_load_tsv_files fallback_loader empty_engine other_fs ''**/*.tsv'' True)
     = Some \<lparr>cols = [''filepath'', ''filename'', ''subject'', ''task'', ''onset''],
              rows = [[Some (path beh_sub01), Some ''sub-01_task-rest_beh.tsv'', Some ''01'',
                       Some ''rest'', Some ''1.0''],
                      [Some (path beh_sub02_other), Some ''sub-02_task-rest_beh.tsv'', Some ''02'',
                       Some ''rest'', Some ''left'']]\<rparr>"
  by code_simp




section \<open>Results of the benchmark loop\<close>

lemma benchmark_approach_unknown:
  "map_of loaders approach = None \<Longrightarrow>
     \<exists>e. benchmark_approach measure_loader root_dir root_exists approach = Inl e"
  by (simp add: benchmark_approach_def create_loader_def split: sum.splits)

lemma run_loop_results:
  "\<exists>more. run_loop measure_loader root_dir root_exists approaches results = Inr (results @ more)
      \<and> map approach_name more = approaches
      \<and> (\<forall>i < length approaches. map_of loaders (approaches ! i) = None \<longrightarrow>
            load_time (more ! i) = 0 \<and> length (errors (more ! i)) = 1)"
proof (induction approaches arbitrary: results)
  case Nil
  then show ?case by simp
next
  case (Cons a approaches)
  show ?case
  proof (cases "benchmark_approach measure_loader root_dir root_exists a")
    case (Inr result)
    then have known: "map_of loaders a \<noteq> None"
      using benchmark_approach_unknown [of a measure_loader root_dir root_exists] by auto
    from Inr have name: "approach_name result = a"
      by (auto simp: benchmark_approach_def BenchmarkResult_init_def split: sum.splits)
    from Cons.IH [of "results @ [result]"] obtain more where
      m: "run_loop measure_loader root_dir root_exists approaches (results @ [result])
            = Inr ((results @ [result]) @ more)"
        "map approach_name more = approaches"
        "\<forall>i < length approaches. map_of loaders (approaches ! i) = None \<longrightarrow>
            load_time (more ! i) = 0 \<and> length (errors (more ! i)) = 1"
      by blast
    have "\<forall>i < length (a # approaches). map_of loaders ((a # approaches) ! i) = None \<longrightarrow>
            load_time ((result # more) ! i) = 0 \<and> length (errors ((result # more) ! i)) = 1"
      using m(3) known by (auto simp: nth_Cons split: nat.splits)
    with m(1,2) Inr name show ?thesis
      by (intro exI [of _ "result # more"]) simp
  next
    case (Inl e)
    let ?failed = "\<lparr>approach_name = a, load_time = 0, query_times = [], row_counts = [],
                    memory_usage = 0, errors = [str_of_exn e]\<rparr>"
    from Cons.IH [of "results @ [?failed]"] obtain more where
      m: "run_loop measure_loader root_dir root_exists approaches (results @ [?failed])
            = Inr ((results @ [?failed]) @ more)"
        "map approach_name more = approaches"
        "\<forall>i < length approaches. map_of loaders (approaches ! i) = None \<longrightarrow>
            load_time (more ! i) = 0 \<and> length (errors (more ! i)) = 1"
      by blast
    have "\<forall>i < length (a # approaches). map_of loaders ((a # approaches) ! i) = None \<longrightarrow>
            load_time ((?failed # more) ! i) = 0 \<and> length (errors ((?failed # more) ! i)) = 1"
      using m(3) by (auto simp: nth_Cons split: nat.splits)
    with m(1,2) Inl show ?thesis
      by (intro exI [of _ "?failed # more"]) (simp add: BenchmarkResult_init_def)
  qed
qed

section \<open>Claims about entity extraction\<close>

text \<open>
  Claim C2. For every file path and every entity mapping, \<open>parse_bids_entities\<close> returns
  exactly the mapping obtained by scanning the file name (the final path component, which
  is what the code scans, and the whole string when it has no slash) left to right for
  non-overlapping tokens
  \<^verbatim>\<open>alphanumeric+ hyphen alphanumeric+\<close>, keeping the pairs whose key is a known short
  name, the last occurrence of a repeated key winning; no unknown key is in the result,
  and the result is empty when no token matches.
\<close>

theorem parse_bids_entities_spec:
  "map_of (parse_bids_entities short_to_full filepath)
     = spec_extract (fst ` set short_to_full) (path_name filepath)
   \<and> (CHR ''/'' \<notin> set filepath \<longrightarrow>
         map_of (parse_bids_entities short_to_full filepath)
           = spec_extract (fst ` set short_to_full) filepath)
   \<and> fst ` set (parse_bids_entities short_to_full filepath) \<subseteq> fst ` set short_to_full
   \<and> (spec_scan (path_name filepath) = [] \<longrightarrow> parse_bids_entities short_to_full filepath = [])"
proof (intro conjI impI)
  show "map_of (parse_bids_entities short_to_full filepath)
          = spec_extract (fst ` set short_to_full) (path_name filepath)"
    by (simp add: parse_bids_entities_def spec_extract_def parse_loop_map_of finditer_spec_scan)
next
  assume "CHR ''/'' \<notin> set filepath"
  then have "spec_scan (path_name filepath) = spec_scan filepath" by (rule spec_scan_file_name)
  then show "map_of (parse_bids_entities short_to_full filepath)
          = spec_extract (fst ` set short_to_full) filepath"
    by (simp add: parse_bids_entities_def spec_extract_def parse_loop_map_of finditer_spec_scan)
next
  show "fst ` set (parse_bids_entities short_to_full filepath) \<subseteq> fst ` set short_to_full"
    using parse_loop_keys [of short_to_full "finditer (path_name filepath)" "[]"]
    by (simp add: parse_bids_entities_def)
next
  assume "spec_scan (path_name filepath) = []"
  then show "parse_bids_entities short_to_full filepath = []"
    by (simp add: parse_bids_entities_def finditer_spec_scan)
qed

theorem parse_bids_entities_spec_witness:
  "CHR ''/'' \<notin> set ''README''
   \<and> spec_scan (path_name ''README'') = []
   \<and> map_of (parse_bids_entities [(''sub'', ''subject'')] ''README'')
       = spec_extract (fst ` set [(''sub'', ''subject'')]) ''README''
   \<and> parse_bids_entities [(''sub'', ''subject'')] ''README'' = []"
proof -
  have h1: "CHR ''/'' \<notin> set ''README''" by simp
  have h2: "spec_scan (path_name ''README'') = []"
    unfolding finditer_spec_scan [symmetric] by code_simp
  note t = parse_bids_entities_spec [of "[(''sub'', ''subject'')]" "''README''"]
  from t [THEN conjunct2, THEN conjunct1, THEN mp, OF h1]
  have a: "map_of (parse_bids_entities [(''sub'', ''subject'')] ''README'')
             = spec_extract (fst ` set [(''sub'', ''subject'')]) ''README''" .
  from t [THEN conjunct2, THEN conjunct2, THEN conjunct2, THEN mp, OF h2]
  have b: "parse_bids_entities [(''sub'', ''subject'')] ''README'' = []" .
  from h1 h2 a b show ?thesis by (intro conjI)
qed

text \<open>
  Claim C10. Extraction depends only on the final path component: the result for a path is
  the result for its name, and prefixing a file name with any directory changes nothing,
  so tokens in directory names never contribute.
\<close>

theorem parse_bids_entities_final_component:
  "parse_bids_entities short_to_full filepath
     = parse_bids_entities short_to_full (path_name filepath)
   \<and> (name \<noteq> [] \<and> name \<noteq> ''.'' \<and> CHR ''/'' \<notin> set name \<longrightarrow>
        parse_bids_entities short_to_full (dir @ ''/'' @ name)
          = parse_bids_entities short_to_full name)"
proof (intro conjI impI)
  show "parse_bids_entities short_to_full filepath
          = parse_bids_entities short_to_full (path_name filepath)"
    by (simp add: parse_bids_entities_def path_name_idem)
next
  assume n: "name \<noteq> [] \<and> name \<noteq> ''.'' \<and> CHR ''/'' \<notin> set name"
  then have "path_name (dir @ ''/'' @ name) = name" using path_name_join [of name dir] by simp
  moreover from n have "path_name name = name"
    by (simp add: path_name_def path_parts_def split_sep_no_sep)
  ultimately show "parse_bids_entities short_to_full (dir @ ''/'' @ name)
                     = parse_bids_entities short_to_full name"
    by (simp add: parse_bids_entities_def)
qed

theorem parse_bids_entities_final_component_witness:
  "''task-rest_events.tsv'' \<noteq> [] \<and> ''task-rest_events.tsv'' \<noteq> ''.''
   \<and> CHR ''/'' \<notin> set ''task-rest_events.tsv''
   \<and> parse_bids_entities [(''sub'', ''subject''), (''task'', ''task'')]
         (''/data/sub-01'' @ ''/'' @ ''task-rest_events.tsv'')
       = parse_bids_entities [(''sub'', ''subject''), (''task'', ''task'')]
           ''task-rest_events.tsv''"
  using parse_bids_entities_final_component
    [of "[(''sub'', ''subject''), (''task'', ''task'')]" "''x''" "''task-rest_events.tsv''"
        "''/data/sub-01''"]
  by simp

section \<open>Claims about the schema\<close>

text \<open>
  Claim C4. For every schema instance that holds no fetched definitions (in particular a
  freshly constructed one, of any version), when the fetch or the parse of the entity
  definitions fails in any way, \<open>load_entities\<close> raises nothing and returns the fixed
  fallback definitions: eleven entries with distinct full names, from which the entity
  mapping sends \<open>sub\<close>, \<open>ses\<close> and \<open>task\<close> to \<open>subject\<close>, \<open>session\<close> and \<open>task\<close>.
  Construction itself fetches nothing and cannot fail.
\<close>

theorem load_entities_fallback:
  assumes "fetch_fails (net (entities_url s))" and "p_entities s = None"
  shows "load_entities s net = (Inr get_fallback_entities, s)
         \<and> length get_fallback_entities = 11
         \<and> distinct (map fst get_fallback_entities)
         \<and> map_of (mapping_loop get_fallback_entities []) ''sub'' = Some ''subject''
         \<and> map_of (mapping_loop get_fallback_entities []) ''ses'' = Some ''session''
         \<and> map_of (mapping_loop get_fallback_entities []) ''task'' = Some ''task''
         \<and> (p_entity_short_to_full s = None \<longrightarrow>
               fst (get_entity_mapping s net) = Inr (mapping_loop get_fallback_entities []))
         \<and> p_entities (BIDSSchema_init version) = None
         \<and> p_entity_short_to_full (BIDSSchema_init version) = None"
proof -
  from fetch_entities_fails [of net s] assms
  obtain e where "fetch_entities s net = (Inl e, s)" by blast
  with assms(2) have load: "load_entities s net = (Inr get_fallback_entities, s)"
    by (simp add: load_entities_def)
  have len: "length get_fallback_entities = 11"
    by (simp add: get_fallback_entities_def)
  have dist: "distinct (map fst get_fallback_entities)"
    by (simp add: get_fallback_entities_def)
  have m: "map_of (mapping_loop get_fallback_entities []) ''sub'' = Some ''subject''"
    "map_of (mapping_loop get_fallback_entities []) ''ses'' = Some ''session''"
    "map_of (mapping_loop get_fallback_entities []) ''task'' = Some ''task''"
    by (simp_all add: fallback_mapping)
  have g: "p_entity_short_to_full s = None \<longrightarrow>
             fst (get_entity_mapping s net) = Inr (mapping_loop get_fallback_entities [])"
    using load by (simp add: get_entity_mapping_def Let_def)
  have i: "p_entities (BIDSSchema_init version) = None"
    "p_entity_short_to_full (BIDSSchema_init version) = None"
    by (simp_all add: BIDSSchema_init_def)
  from load len dist m g i show ?thesis by (intro conjI)
qed

theorem load_entities_fallback_witness:
  "fetch_fails (net_404 (entities_url (BIDSSchema_init ''nonexistent-version-xyz'')))
   \<and> p_entities (BIDSSchema_init ''nonexistent-version-xyz'') = None
   \<and> load_entities (BIDSSchema_init ''nonexistent-version-xyz'') net_404
       = (Inr get_fallback_entities, BIDSSchema_init ''nonexistent-version-xyz'')
   \<and> fst (get_entity_mapping (BIDSSchema_init ''nonexistent-version-xyz'') net_404)
       = Inr (mapping_loop get_fallback_entities [])"
proof -
  let ?s = "BIDSSchema_init ''nonexistent-version-xyz''"
  have h1: "fetch_fails (net_404 (entities_url ?s))"
    by (simp add: fetch_fails_def net_404_def)
  have h2: "p_entities ?s = None" by (simp add: BIDSSchema_init_def)
  have h3: "p_entity_short_to_full ?s = None" by (simp add: BIDSSchema_init_def)
  note t = load_entities_fallback [of net_404 ?s, OF h1 h2]
  from t [THEN conjunct1]
  have l: "load_entities ?s net_404 = (Inr get_fallback_entities, ?s)" .
  note t7 = t [THEN conjunct2, THEN conjunct2, THEN conjunct2, THEN conjunct2, THEN conjunct2,
               THEN conjunct2, THEN conjunct1]
  from t7 [THEN mp, OF h3]
  have g: "fst (get_entity_mapping ?s net_404) = Inr (mapping_loop get_fallback_entities [])" .
  from h1 h2 l g show ?thesis by (intro conjI)
qed

text \<open>
  Claim C7 as stated fails. A schema whose first fetch fails returns the fallback
  definitions without storing them, so a later call fetches again: \<open>load_entities\<close> and
  \<open>get_entity_display_names\<close> give different results before and after the network
  comes back, also on the default schema object constructed while the network was down.
\<close>

theorem schema_cache_counterexample:
  "fst (load_entities (BIDSSchema_init ''master'') net_down)
     \<noteq> fst (load_entities (snd (load_entities (BIDSSchema_init ''master'') net_down)) net_up)
   \<and> fst (get_entity_display_names (BIDSSchema_init ''master'') net_down)
     \<noteq> fst (get_entity_display_names
              (snd (get_entity_display_names (BIDSSchema_init ''master'') net_down)) net_up)
   \<and> fst (load_entities (fst (get_default_schema None net_down)) net_up) = Inr small_document"
  by (simp add: load_entities_def fetch_entities_def net_down_def net_up_def
      BIDSSchema_init_def get_entity_display_names_def get_default_schema_def
      get_fallback_entities_def small_document_def Let_def)

text \<open>
  Claim C7, amended. \<open>get_entity_mapping\<close> and \<open>get_all_entity_short_names\<close> are
  computed once and cached: a second call returns the first call's result and leaves the
  schema unchanged, whatever the network does. \<open>load_entities\<close> caches the fetched set of
  definitions: once one is stored, \<open>load_entities\<close> and \<open>get_entity_display_names\<close>
  (which is recomputed from \<open>load_entities\<close> at each call) do not depend on the network
  and leave the schema unchanged. The default schema object is constructed once and the
  same object is returned afterwards.
\<close>

theorem schema_cache_amended:
  "(case get_entity_mapping s net1 of (r1, s1) \<Rightarrow> get_entity_mapping s1 net2 = (r1, s1))
   \<and> (case get_all_entity_short_names s net1 of
         (r1, s1) \<Rightarrow> get_all_entity_short_names s1 net2 = (r1, s1))
   \<and> (p_entities s \<noteq> None \<longrightarrow>
         load_entities s net1 = load_entities s net2 \<and> snd (load_entities s net1) = s
         \<and> get_entity_display_names s net1 = get_entity_display_names s net2
         \<and> snd (get_entity_display_names s net1) = s)
   \<and> (p_entities s = None \<and> net1 (entities_url s) = Document (Some loaded) \<longrightarrow>
         load_entities s net1 = (Inr loaded, s\<lparr>p_entities := Some loaded\<rparr>)
         \<and> load_entities (s\<lparr>p_entities := Some loaded\<rparr>) net2
             = (Inr loaded, s\<lparr>p_entities := Some loaded\<rparr>))
   \<and> get_default_schema (Some schema) net1 = (schema, Some schema)"
proof (intro conjI impI)
  show "case get_entity_mapping s net1 of (r1, s1) \<Rightarrow> get_entity_mapping s1 net2 = (r1, s1)"
    using load_entities_returns [of s net1]
    by (auto simp: get_entity_mapping_def Let_def split: option.splits prod.splits sum.splits)
next
  show "case get_all_entity_short_names s net1 of
          (r1, s1) \<Rightarrow> get_all_entity_short_names s1 net2 = (r1, s1)"
    using load_entities_returns [of s net1]
    by (auto simp: get_all_entity_short_names_def get_entity_mapping_def Let_def
        split: option.splits prod.splits sum.splits)
next
  assume "p_entities s \<noteq> None"
  then obtain cached where c: "p_entities s = Some cached" by auto
  then show "load_entities s net1 = load_entities s net2" by (simp add: load_entities_cached)
  from c show "snd (load_entities s net1) = s" by (simp add: load_entities_cached)
  from c show "get_entity_display_names s net1 = get_entity_display_names s net2"
    by (simp add: get_entity_display_names_def load_entities_cached)
  from c show "snd (get_entity_display_names s net1) = s"
    by (simp add: get_entity_display_names_def load_entities_cached)
next
  assume a: "p_entities s = None \<and> net1 (entities_url s) = Document (Some loaded)"
  then show "load_entities s net1 = (Inr loaded, s\<lparr>p_entities := Some loaded\<rparr>)"
    by (simp add: load_entities_def fetch_entities_def entities_url_def)
  show "load_entities (s\<lparr>p_entities := Some loaded\<rparr>) net2
          = (Inr loaded, s\<lparr>p_entities := Some loaded\<rparr>)"
    by (simp add: load_entities_def)
next
  show "get_default_schema (Some schema) net1 = (schema, Some schema)"
    by (simp add: get_default_schema_def)
qed

theorem schema_cache_amended_witness:
  "p_entities (BIDSSchema_init ''master'') = None
   \<and> net_up (entities_url (BIDSSchema_init ''master'')) = Document (Some small_document)
   \<and> p_entities (snd (load_entities (BIDSSchema_init ''master'') net_up)) \<noteq> None
   \<and> load_entities (snd (load_entities (BIDSSchema_init ''master'') net_up)) net_down
       = load_entities (snd (load_entities (BIDSSchema_init ''master'') net_up)) net_up
   \<and> fst (load_entities (snd (load_entities (BIDSSchema_init ''master'') net_up)) net_down)
       = Inr small_document"
proof -
  let ?s = "BIDSSchema_init ''master''"
  have h1: "p_entities ?s = None" by (simp add: BIDSSchema_init_def)
  have h2: "net_up (entities_url ?s) = Document (Some small_document)" by (simp add: net_up_def)
  from schema_cache_amended
         [where s = ?s and ?net1.0 = net_up and ?net2.0 = net_down and loaded = small_document]
       h1 h2
  have l: "load_entities ?s net_up = (Inr small_document, ?s\<lparr>p_entities := Some small_document\<rparr>)"
    and l2: "load_entities (?s\<lparr>p_entities := Some small_document\<rparr>) net_down
          = (Inr small_document, ?s\<lparr>p_entities := Some small_document\<rparr>)"
    by blast+
  have h3: "p_entities (?s\<lparr>p_entities := Some small_document\<rparr>) \<noteq> None" by simp
  from schema_cache_amended
         [where s = "?s\<lparr>p_entities := Some small_document\<rparr>" and ?net1.0 = net_down
            and ?net2.0 = net_up]
       h3
  have "load_entities (?s\<lparr>p_entities := Some small_document\<rparr>) net_down
          = load_entities (?s\<lparr>p_entities := Some small_document\<rparr>) net_up"
    by blast
  with l l2 h1 h2 show ?thesis by simp
qed

section \<open>Claims about the loaders\<close>


text \<open>
  Claim C3 fails on the code. Two files with the same entities, one with the native column
  \<open>onset\<close> and one with \<open>onset\<close> and \<open>response\<close>: the host-eager load raises, because
  the operands of its \<^verbatim>\<open>UNION ALL\<close> differ in width. When the second file has the single
  column \<open>response\<close> instead, the load succeeds by position: the table has no \<open>response\<close>
  column and the second file's value stands under \<open>onset\<close>, not null.
\<close>

theorem heterogeneous_columns_not_unified:
  "fst (python_load_tsv_files fallback_loader empty_engine wide_fs ''**/*.tsv'' True)
     = Inl (BinderException
         ''Set operations can only apply to expressions with the same number of result columns'')
   \<and> created_table
         (python_load_tsv_files fallback_loader empty_engine other_fs ''**/*.tsv'' True)
       = Some \<lparr>cols = [''filepath'', ''filename'', ''subject'', ''task'', ''onset''],
                rows = [[Some (path beh_sub01), Some ''sub-01_task-rest_beh.tsv'', Some ''01'',
                         Some ''rest'', Some ''1.0''],
                        [Some (path beh_sub02_other), Some ''sub-02_task-rest_beh.tsv'',
                         Some ''02'', Some ''rest'', Some ''left'']]\<rparr>"
  by (intro conjI) (rule wide_host_eager_fails, rule other_host_eager_table)



text \<open>
  Claim C6. When the glob matches no file, the host-eager \<open>load_tsv_files\<close> does not fail:
  it creates (or replaces) the table \<open>bids_tsv_data\<close> with the single column \<open>filepath\<close> and
  no rows, and returns the table's name.
\<close>

theorem python_load_no_files:
  assumes "tsv_glob fs pattern = []"
  shows "python_load_tsv_files L con fs pattern use_full_names
           = (Inr ''bids_tsv_data'',
              create_or_replace con ''bids_tsv_data'' (Table \<lparr>cols = [''filepath''], rows = []\<rparr>))
         \<and> created_table (python_load_tsv_files L con fs pattern use_full_names)
             = Some \<lparr>cols = [''filepath''], rows = []\<rparr>"
  using assms
  by (simp add: python_load_tsv_files_def created_table_def create_or_replace_def)

theorem python_load_no_files_witness:
  "tsv_glob empty_fs ''**/*.tsv'' = []
   \<and> fst (python_load_tsv_files fallback_loader empty_engine empty_fs ''**/*.tsv'' True)
       = Inr ''bids_tsv_data''
   \<and> created_table (python_load_tsv_files fallback_loader empty_engine empty_fs ''**/*.tsv'' True)
       = Some \<lparr>cols = [''filepath''], rows = []\<rparr>"
proof -
  have h: "tsv_glob empty_fs ''**/*.tsv'' = []" by (simp add: empty_fs_def no_tsv_def)
  from python_load_no_files [OF h, of fallback_loader empty_engine True] h
  show ?thesis by (simp add: created_table_def create_or_replace_def)
qed



section \<open>Claims about the benchmark suite\<close>

text \<open>
  Claim C8 as stated fails. Running the suite with the single unknown name \<open>duckdb\<close> does
  not raise: \<open>run_all\<close> returns one result for the name, with load time 0 and the caught
  exception's message as its error.
\<close>

theorem unknown_approach_recorded_counterexample:
  "run_all no_measurement ''/data/bids'' True (Some [''duckdb''])
     = Inr [\<lparr>approach_name = ''duckdb'', load_time = 0, query_times = [], row_counts = [],
              memory_usage = 0,
              errors = [''BenchmarkResult.__init__() missing 1 required positional argument: load_time'']\<rparr>]"
  by (simp add: run_all_def benchmark_approach_def BenchmarkResult_init_def)

text \<open>
  Claim C8, amended. For every strategy name outside \<open>sql\<close>, \<open>python\<close>, \<open>table_function\<close>,
  \<open>_create_loader\<close> raises \<^verbatim>\<open>ValueError\<close> naming the approach; \<open>run_all\<close> catches the failure of
  the strategy and returns normally, with one result per requested name in order, and the
  result of the unknown name has load time 0 and exactly one recorded error.
\<close>

theorem unknown_approach_amended:
  assumes "approach \<notin> {''sql'', ''python'', ''table_function''}"
  shows "create_loader root_dir root_exists approach = Inl (ValueError (''Unknown approach: '' @ approach))
         \<and> (\<exists>results. run_all measure_loader root_dir root_exists (Some approaches) = Inr results
               \<and> map approach_name results = approaches
               \<and> (\<forall>i < length approaches. approaches ! i = approach \<longrightarrow>
                     load_time (results ! i) = 0 \<and> length (errors (results ! i)) = 1))"
proof -
  from assms have unknown: "map_of loaders approach = None" by (simp add: loaders_def)
  then have "create_loader root_dir root_exists approach
               = Inl (ValueError (''Unknown approach: '' @ approach))"
    by (simp add: create_loader_def)
  moreover from run_loop_results [of measure_loader root_dir root_exists approaches "[]"] unknown
  have "\<exists>results. run_all measure_loader root_dir root_exists (Some approaches) = Inr results
               \<and> map approach_name results = approaches
               \<and> (\<forall>i < length approaches. approaches ! i = approach \<longrightarrow>
                     load_time (results ! i) = 0 \<and> length (errors (results ! i)) = 1)"
    by (auto simp: run_all_def)
  ultimately show ?thesis by blast
qed

theorem unknown_approach_amended_witness:
  "''duckdb'' \<notin> {''sql'', ''python'', ''table_function''}
   \<and> create_loader ''/data/bids'' True ''duckdb'' = Inl (ValueError ''Unknown approach: duckdb'')
   \<and> (\<exists>results. run_all no_measurement ''/data/bids'' True (Some [''sql'', ''duckdb'']) = Inr results
         \<and> map approach_name results = [''sql'', ''duckdb'']
         \<and> load_time (results ! 1) = 0 \<and> length (errors (results ! 1)) = 1)"
proof -
  have h: "''duckdb'' \<notin> {''sql'', ''python'', ''table_function''}" by simp
  note t = unknown_approach_amended
             [OF h, of "''/data/bids''" True no_measurement "[''sql'', ''duckdb'']"]
  from t [THEN conjunct1]
  have c: "create_loader ''/data/bids'' True ''duckdb''
             = Inl (ValueError ''Unknown approach: duckdb'')"
    by simp
  from t [THEN conjunct2] obtain results where
    r: "run_all no_measurement ''/data/bids'' True (Some [''sql'', ''duckdb'']) = Inr results
      \<and> map approach_name results = [''sql'', ''duckdb'']
      \<and> (\<forall>i < length [''sql'', ''duckdb'']. [''sql'', ''duckdb''] ! i = ''duckdb'' \<longrightarrow>
            load_time (results ! i) = 0 \<and> length (errors (results ! i)) = 1)"
    by (rule exE)
  note r3 = r [THEN conjunct2, THEN conjunct2, THEN spec, of 1]
  have r4: "load_time (results ! 1) = 0 \<and> length (errors (results ! 1)) = 1"
    using r3 by simp
  show ?thesis
  proof (intro conjI exI [of _ results])
    show "''duckdb'' \<notin> {''sql'', ''python'', ''table_function''}" by (rule h)
    show "create_loader ''/data/bids'' True ''duckdb''
            = Inl (ValueError ''Unknown approach: duckdb'')" by (rule c)
    show "run_all no_measurement ''/data/bids'' True (Some [''sql'', ''duckdb'']) = Inr results"
      by (rule r [THEN conjunct1])
    show "map approach_name results = [''sql'', ''duckdb'']"
      by (rule r [THEN conjunct2, THEN conjunct1])
    show "load_time (results ! 1) = 0" by (rule r4 [THEN conjunct1])
    show "length (errors (results ! 1)) = 1" by (rule r4 [THEN conjunct2])
  qed
qed

end
